theory Spec2Isabelle
  imports Complex_Main
begin

section \<open>Chorus detection (CorosDETECfunc.py): data model\<close>

text \<open>
  The embedding follows \<^verbatim>\<open>detectar_y_extraer_coro\<close> and its nested functions.
  Python and numpy floats are modelled by exact reals: rounding, infinities and
  not-a-number values of the float arithmetic are outside the model, except for the
  not-a-number result of the correlation, which the source tests for and which is
  therefore a value of its own (\<open>None\<close>). The \<^verbatim>\<open>print\<close> calls guarded by
  \<^verbatim>\<open>mostrar_info\<close> produce no value and are left out.
\<close>

text \<open>Exceptions of class \<^verbatim>\<open>Exception\<close>, each with the text \<^verbatim>\<open>str(e)\<close> gives.\<close>

datatype excepcion =
    FileNotFoundError string
  | IndexError string
  | ValueError string
  | OtraExcepcion string

fun str :: "excepcion \<Rightarrow> string" where
  "str (FileNotFoundError m) = m"
| "str (IndexError m) = m"
| "str (ValueError m) = m"
| "str (OtraExcepcion m) = m"

type_synonym matriz = "real list list"

text \<open>The feature streams computed by librosa from the waveform (one entry per frame;
  \<open>mfcc\<close> and \<open>chroma\<close> are lists of rows, each row one entry per frame).\<close>

record caracteristicas =
  rms :: "real list"
  mfcc :: matriz
  spectral_centroid :: "real list"
  chroma :: matriz
  tempo :: real

text \<open>The dictionary \<^verbatim>\<open>segmento\<close> built by \<^verbatim>\<open>analizar_segmentos_completo\<close>.\<close>

record segmento =
  inicio_s :: real
  fin_s :: real
  inicio_frame :: nat
  fin_frame :: nat
  energia_promedio :: real
  energia_varianza :: real
  centroid_promedio :: real
  estabilidad_tonal :: real
  seg_mfcc :: matriz
  seg_chroma :: matriz

text \<open>The dictionary appended to \<^verbatim>\<open>scores\<close> by \<^verbatim>\<open>calcular_score_coro\<close>.\<close>

record candidato =
  indice :: nat
  score_total :: real
  score_repeticion :: real
  energia_normalizada :: real
  score_posicion :: real
  repeticiones :: nat
  cand_inicio_s :: real
  cand_fin_s :: real

text \<open>The two dictionaries the entry point returns: \<^verbatim>\<open>'exito': True\<close> with the
  six fields, or \<^verbatim>\<open>'exito': False\<close> with \<^verbatim>\<open>'error'\<close>.\<close>

record coro =
  res_inicio_s :: real
  res_fin_s :: real
  duracion_s :: real
  score :: real
  res_repeticiones :: nat
  archivo_salida :: string

datatype resultado = Exito coro | Fallo string

text \<open>What the program calls outside itself: \<^verbatim>\<open>os.path.exists\<close>,
  \<^verbatim>\<open>librosa.load\<close>, the librosa feature functions, \<^verbatim>\<open>np.corrcoef(x, y)[0, 1]\<close>
  (\<open>None\<close> is not-a-number) and the pydub export. Each may raise.\<close>

record entorno =
  existe :: "string \<Rightarrow> bool"
  librosa_load :: "string \<Rightarrow> excepcion + real list"
  extraer :: "real list \<Rightarrow> nat \<Rightarrow> excepcion + caracteristicas"
  corrcoef :: "real list \<Rightarrow> real list \<Rightarrow> excepcion + real option"
  exportar :: "string \<Rightarrow> real \<Rightarrow> real \<Rightarrow> string \<Rightarrow> excepcion + unit"

section \<open>numpy and Python helpers\<close>

text \<open>\<^verbatim>\<open>xs[a:b]\<close> for \<open>0 \<le> a\<close>, \<open>0 \<le> b\<close>: the slice stops at the end of the list.\<close>

definition rebanada :: "'a list \<Rightarrow> nat \<Rightarrow> nat \<Rightarrow> 'a list" where
  "rebanada xs a b = take (b - a) (drop a xs)"

text \<open>\<^verbatim>\<open>m[:, a:b]\<close>\<close>

definition columnas :: "matriz \<Rightarrow> nat \<Rightarrow> nat \<Rightarrow> matriz" where
  "columnas m a b = map (\<lambda>fila. rebanada fila a b) m"

text \<open>\<^verbatim>\<open>m.shape[1]\<close> of a two-dimensional array, and \<^verbatim>\<open>m.flatten()\<close>.\<close>

definition ancho :: "matriz \<Rightarrow> nat" where
  "ancho m = (case m of [] \<Rightarrow> 0 | fila # _ \<Rightarrow> length fila)"

definition flatten :: "matriz \<Rightarrow> real list" where
  "flatten m = concat m"

text \<open>\<^verbatim>\<open>np.mean\<close> and \<^verbatim>\<open>np.var\<close> (population variance).\<close>

definition mean :: "real list \<Rightarrow> real" where
  "mean xs = sum_list xs / real (length xs)"

definition var :: "real list \<Rightarrow> real" where
  "var xs = mean (map (\<lambda>x. (x - mean xs) ^ 2) xs)"

text \<open>\<^verbatim>\<open>librosa.frames_to_time(frame, sr=sr, hop_length=hop_length)\<close>\<close>

definition frames_to_time :: "nat \<Rightarrow> nat \<Rightarrow> nat \<Rightarrow> real" where
  "frames_to_time frame sr hop = real (frame * hop) / real sr"

text \<open>\<^verbatim>\<open>range(i, fin, paso)\<close> for \<open>paso > 0\<close>, as the loop it drives.\<close>

function rango_desde :: "nat \<Rightarrow> nat \<Rightarrow> nat \<Rightarrow> nat list" where
  "rango_desde i fin paso =
     (if paso = 0 \<or> fin \<le> i then [] else i # rango_desde (i + paso) fin paso)"
  by pat_completeness auto
termination
  by (relation "measure (\<lambda>(i, fin, paso). fin - i)") auto

declare rango_desde.simps [simp del]

text \<open>\<^verbatim>\<open>range(0, fin, paso)\<close>; a zero step raises, a stop \<open>\<le> 0\<close> gives the empty range.\<close>

definition rango :: "int \<Rightarrow> nat \<Rightarrow> excepcion + nat list" where
  "rango fin paso =
     (if paso = 0 then Inl (ValueError ''range() arg 3 must not be zero'')
      else Inr (rango_desde 0 (nat fin) paso))"

section \<open>Segmenter: analizar\_segmentos\_completo\<close>

definition hop_length :: nat where
  "hop_length = 512"

text \<open>\<^verbatim>\<open>int(ventana_s * sr / hop_length)\<close>: the truncation of a non-negative quotient.\<close>

definition ventana_frames :: "nat \<Rightarrow> nat \<Rightarrow> nat" where
  "ventana_frames ventana_s sr = (ventana_s * sr) div hop_length"

definition hop_frames :: "nat \<Rightarrow> nat \<Rightarrow> nat" where
  "hop_frames hop_s sr = (hop_s * sr) div hop_length"

text \<open>The body of the loop for the start frame \<open>i\<close>.\<close>

definition crear_segmento :: "caracteristicas \<Rightarrow> nat \<Rightarrow> nat \<Rightarrow> nat \<Rightarrow> segmento" where
  "crear_segmento c sr vf i =
     (let inicio = i;
          fin = i + vf;
          mfcc_seg = columnas (mfcc c) inicio fin;
          chroma_seg = columnas (chroma c) inicio fin
      in \<lparr> inicio_s = frames_to_time inicio sr hop_length,
           fin_s = frames_to_time fin sr hop_length,
           inicio_frame = inicio,
           fin_frame = fin,
           energia_promedio = mean (rebanada (rms c) inicio fin),
           energia_varianza = var (rebanada (rms c) inicio fin),
           centroid_promedio = mean (rebanada (spectral_centroid c) inicio fin),
           estabilidad_tonal = 1 / (1 + var (flatten chroma_seg)),
           seg_mfcc = mfcc_seg,
           seg_chroma = chroma_seg \<rparr>)"

definition analizar_segmentos_completo ::
  "caracteristicas \<Rightarrow> nat \<Rightarrow> nat \<Rightarrow> nat \<Rightarrow> excepcion + segmento list" where
  "analizar_segmentos_completo c sr ventana_s hop_s =
     (let vf = ventana_frames ventana_s sr;
          hf = hop_frames hop_s sr
      in case rango (int (length (rms c)) - int vf) hf of
           Inl e \<Rightarrow> Inl e
         | Inr is \<Rightarrow> Inr (map (crear_segmento c sr vf) is))"

section \<open>Similarity Engine: calcular\_similitudes\<close>

text \<open>\<^verbatim>\<open>np.zeros((n, n))\<close> and the assignment \<^verbatim>\<open>m[i, j] = v\<close>. The loops below
  only write at indices below \<open>n\<close>, where numpy does not raise.\<close>

definition zeros :: "nat \<Rightarrow> matriz" where
  "zeros n = replicate n (replicate n 0)"

definition poner :: "matriz \<Rightarrow> nat \<Rightarrow> nat \<Rightarrow> real \<Rightarrow> matriz" where
  "poner m i j v = m[i := (m ! i)[j := v]]"

text \<open>One of the two guarded correlations: computed only when the two sub-matrices
  have the same \<^verbatim>\<open>shape[1]\<close>; not-a-number becomes 0; an exception of
  \<^verbatim>\<open>np.corrcoef\<close> propagates to the enclosing \<^verbatim>\<open>try\<close>.\<close>

definition correlacion ::
  "(real list \<Rightarrow> real list \<Rightarrow> excepcion + real option) \<Rightarrow> matriz \<Rightarrow> matriz \<Rightarrow> excepcion + real" where
  "correlacion cc a b =
     (if ancho a = ancho b then
        (case cc (flatten a) (flatten b) of
           Inl e \<Rightarrow> Inl e
         | Inr None \<Rightarrow> Inr 0
         | Inr (Some r) \<Rightarrow> Inr r)
      else Inr 0)"

text \<open>The body of the \<^verbatim>\<open>try\<close> up to the value of \<^verbatim>\<open>similitud\<close>.\<close>

definition similitud_par ::
  "(real list \<Rightarrow> real list \<Rightarrow> excepcion + real option) \<Rightarrow> segmento \<Rightarrow> segmento \<Rightarrow> excepcion + real" where
  "similitud_par cc seg1 seg2 =
     (case correlacion cc (seg_mfcc seg1) (seg_mfcc seg2) of
        Inl e \<Rightarrow> Inl e
      | Inr corr_mfcc \<Rightarrow>
          (case correlacion cc (seg_chroma seg1) (seg_chroma seg2) of
             Inl e \<Rightarrow> Inl e
           | Inr corr_chroma \<Rightarrow> Inr (corr_mfcc * 0.7 + corr_chroma * 0.3)))"

text \<open>One iteration of the inner loop: the \<^verbatim>\<open>try\<close> writes the pair's similarity to
  both cells, the bare \<^verbatim>\<open>except\<close> writes 0 to both.\<close>

definition paso_similitud ::
  "(real list \<Rightarrow> real list \<Rightarrow> excepcion + real option) \<Rightarrow> segmento list \<Rightarrow> nat \<Rightarrow> nat \<Rightarrow> matriz \<Rightarrow> matriz" where
  "paso_similitud cc segmentos i j m =
     (case similitud_par cc (segmentos ! i) (segmentos ! j) of
        Inr similitud \<Rightarrow> poner (poner m i j similitud) j i similitud
      | Inl e \<Rightarrow> poner (poner m i j 0) j i 0)"

definition calcular_similitudes ::
  "(real list \<Rightarrow> real list \<Rightarrow> excepcion + real option) \<Rightarrow> segmento list \<Rightarrow> matriz" where
  "calcular_similitudes cc segmentos =
     (let n_segmentos = length segmentos
      in fold (\<lambda>i m. fold (\<lambda>j m. paso_similitud cc segmentos i j m) [Suc i..<n_segmentos] m)
           [0..<n_segmentos] (zeros n_segmentos))"

section \<open>Chorus Scorer: calcular\_score\_coro\<close>

text \<open>\<^verbatim>\<open>max(xs)\<close> of a non-empty list (it is only called inside the loop over the
  segments, where the list has an element).\<close>

definition maximo :: "real list \<Rightarrow> real" where
  "maximo xs = fold max (tl xs) (hd xs)"

text \<open>A loop whose body may raise: the first exception ends it.\<close>

fun recorrer :: "('a \<Rightarrow> excepcion + 'b) \<Rightarrow> 'a list \<Rightarrow> excepcion + 'b list" where
  "recorrer f [] = Inr []"
| "recorrer f (x # xs) =
     (case f x of
        Inl e \<Rightarrow> Inl e
      | Inr y \<Rightarrow> (case recorrer f xs of Inl e \<Rightarrow> Inl e | Inr ys \<Rightarrow> Inr (y # ys)))"

text \<open>The body of the loop for segment \<open>i\<close>. \<^verbatim>\<open>similitudes[i, :]\<close> raises when the
  matrix has no row \<open>i\<close> (numpy's message names the index and the size; it is
  shortened here).\<close>

definition puntuar :: "segmento list \<Rightarrow> matriz \<Rightarrow> nat \<Rightarrow> excepcion + candidato" where
  "puntuar segmentos similitudes i =
     (if length similitudes \<le> i then Inl (IndexError ''index is out of bounds for axis 0'')
      else
        let seg = segmentos ! i;
            repeticiones = length (filter (\<lambda>v. v > 0.6) (similitudes ! i));
            score_repeticion = real repeticiones / real (length segmentos);
            energias = map energia_promedio segmentos;
            energia_normalizada = energia_promedio seg / maximo energias;
            posicion_relativa = inicio_s seg / fin_s (last segmentos);
            score_posicion =
              (if 0.25 \<le> posicion_relativa \<and> posicion_relativa \<le> 0.75 then 1.0
               else if 0.15 \<le> posicion_relativa \<and> posicion_relativa \<le> 0.85 then 0.7
               else 0.3);
            estabilidades = map estabilidad_tonal segmentos;
            estabilidad_normalizada = estabilidad_tonal seg / maximo estabilidades;
            varianzas = map energia_varianza segmentos;
            varianza_normalizada = 1.0 - (energia_varianza seg / maximo varianzas);
            score_total =
              score_repeticion * 0.35 + energia_normalizada * 0.25 + score_posicion * 0.15 +
              estabilidad_normalizada * 0.15 + varianza_normalizada * 0.10
        in Inr \<lparr> indice = i,
                 score_total = score_total,
                 score_repeticion = score_repeticion,
                 energia_normalizada = energia_normalizada,
                 score_posicion = score_posicion,
                 repeticiones = repeticiones,
                 cand_inicio_s = inicio_s seg,
                 cand_fin_s = fin_s seg \<rparr>)"

text \<open>\<^verbatim>\<open>sorted(scores, key=..., reverse=True)\<close>: descending and stable, which is the
  stable ascending sort on the negated key.\<close>

definition calcular_score_coro :: "segmento list \<Rightarrow> matriz \<Rightarrow> excepcion + candidato list" where
  "calcular_score_coro segmentos similitudes =
     (case recorrer (puntuar segmentos similitudes) [0..<length segmentos] of
        Inl e \<Rightarrow> Inl e
      | Inr scores \<Rightarrow> Inr (sort_key (\<lambda>x. - score_total x) scores))"

section \<open>Segment Expander: expandir\_segmento\<close>

definition expandir_segmento ::
  "candidato \<Rightarrow> segmento list \<Rightarrow> real \<Rightarrow> excepcion + real \<times> real" where
  "expandir_segmento mejor_segmento segmentos_originales duracion_objetivo =
     (let idx = indice mejor_segmento
      in if length segmentos_originales \<le> idx then Inl (IndexError ''list index out of range'')
         else
           let seg_original = segmentos_originales ! idx;
               inicio_actual = inicio_s seg_original;
               fin_actual = fin_s seg_original;
               duracion_actual = fin_actual - inicio_actual
           in if duracion_actual \<ge> duracion_objetivo then Inr (inicio_actual, fin_actual)
              else
                let expansion_necesaria = duracion_objetivo - duracion_actual;
                    expansion_cada_lado = expansion_necesaria / 2;
                    nuevo_inicio = max 0 (inicio_actual - expansion_cada_lado);
                    nuevo_fin = fin_actual + expansion_cada_lado;
                    duracion_total = fin_s (last segmentos_originales)
                in if nuevo_fin > duracion_total
                   then Inr (max 0 (duracion_total - duracion_objetivo), duracion_total)
                   else Inr (nuevo_inicio, nuevo_fin))"

section \<open>Entry point: detectar\_y\_extraer\_coro\<close>

text \<open>\<^verbatim>\<open>librosa.load(ruta, sr=22050)\<close> resamples and returns the rate it was given.\<close>

definition cargar_audio :: "entorno \<Rightarrow> string \<Rightarrow> excepcion + real list \<times> nat" where
  "cargar_audio env ruta =
     (case librosa_load env ruta of Inl e \<Rightarrow> Inl e | Inr y \<Rightarrow> Inr (y, 22050))"

text \<open>\<^verbatim>\<open>scores[0]\<close>\<close>

definition primero :: "'a list \<Rightarrow> excepcion + 'a" where
  "primero xs = (case xs of [] \<Rightarrow> Inl (IndexError ''list index out of range'') | x # _ \<Rightarrow> Inr x)"

text \<open>The message of the \<^verbatim>\<open>FileNotFoundError\<close>; the accented letter is its two
  bytes in UTF-8.\<close>

definition no_encontrado :: "string \<Rightarrow> string" where
  "no_encontrado ruta = ''No se encontr'' @ [CHR 0xC3, CHR 0xB3] @ '' el archivo: '' @ ruta"

text \<open>The body of the outer \<^verbatim>\<open>try\<close>: every statement that can raise is a case
  whose \<open>Inl\<close> branch leaves the body.\<close>

definition proceso_principal :: "entorno \<Rightarrow> string \<Rightarrow> string \<Rightarrow> real \<Rightarrow> excepcion + coro" where
  "proceso_principal env ruta_audio salida_audio duracion_objetivo =
     (if \<not> existe env ruta_audio then Inl (FileNotFoundError (no_encontrado ruta_audio))
      else case cargar_audio env ruta_audio of
        Inl e \<Rightarrow> Inl e
      | Inr (y, sr) \<Rightarrow>
      (case extraer env y sr of
        Inl e \<Rightarrow> Inl e
      | Inr c \<Rightarrow>
      (case analizar_segmentos_completo c sr 12 2 of
        Inl e \<Rightarrow> Inl e
      | Inr segmentos \<Rightarrow>
      (let similitudes = calcular_similitudes (corrcoef env) segmentos
       in case calcular_score_coro segmentos similitudes of
        Inl e \<Rightarrow> Inl e
      | Inr scores \<Rightarrow>
      (case primero scores of
        Inl e \<Rightarrow> Inl e
      | Inr mejor_candidato \<Rightarrow>
      (case expandir_segmento mejor_candidato segmentos duracion_objetivo of
        Inl e \<Rightarrow> Inl e
      | Inr (inicio_final, fin_final) \<Rightarrow>
      (case exportar env ruta_audio inicio_final fin_final salida_audio of
        Inl e \<Rightarrow> Inl e
      | Inr _ \<Rightarrow>
          Inr \<lparr> res_inicio_s = inicio_final,
                res_fin_s = fin_final,
                duracion_s = fin_final - inicio_final,
                score = score_total mejor_candidato,
                res_repeticiones = repeticiones mejor_candidato,
                archivo_salida = salida_audio \<rparr>)))))))"

text \<open>The \<^verbatim>\<open>try\<close> with its \<^verbatim>\<open>except Exception as e\<close>: the flag
  \<^verbatim>\<open>mostrar_info\<close> only selects the printing.\<close>

definition detectar_y_extraer_coro ::
  "entorno \<Rightarrow> string \<Rightarrow> string \<Rightarrow> real \<Rightarrow> bool \<Rightarrow> resultado" where
  "detectar_y_extraer_coro env ruta_audio salida_audio duracion_objetivo mostrar_info =
     (case proceso_principal env ruta_audio salida_audio duracion_objetivo of
        Inr r \<Rightarrow> Exito r
      | Inl e \<Rightarrow> Fallo (str e))"

section \<open>Notions used in the statements\<close>

text \<open>The segment count as the specification words it:
  floor((total_frames - window_frames) / stride_frames) + 1, over the integers.\<close>

definition cuenta_segun_spec :: "nat \<Rightarrow> nat \<Rightarrow> nat \<Rightarrow> int" where
  "cuenta_segun_spec total_frames window_frames stride_frames =
     (int total_frames - int window_frames) div int stride_frames + 1"

text \<open>A concrete input: the feature streams of \<open>n\<close> frames of silence (13 timbral rows,
  12 chroma rows).\<close>

definition pista_silencio :: "nat \<Rightarrow> caracteristicas" where
  "pista_silencio n =
     \<lparr> rms = replicate n 0, mfcc = replicate 13 (replicate n 0),
       spectral_centroid = replicate n 0, chroma = replicate 12 (replicate n 0), tempo = 120 \<rparr>"

text \<open>The invariants of a segment list as the Segmenter builds it, as far as the
  Expander depends on them: no segment starts before time 0, and no segment ends
  after the last one (whose end the Expander takes as the track duration).\<close>

definition segmentos_validos :: "segmento list \<Rightarrow> bool" where
  "segmentos_validos segs =
     (\<forall>s \<in> set segs. 0 \<le> inicio_s s \<and> fin_s s \<le> fin_s (last segs))"

text \<open>A concrete segment with the given time bounds (the other fields play no role in
  the Expander).\<close>

definition seg_tiempos :: "real \<Rightarrow> real \<Rightarrow> segmento" where
  "seg_tiempos a b =
     \<lparr> inicio_s = a, fin_s = b, inicio_frame = 0, fin_frame = 0, energia_promedio = 1,
       energia_varianza = 1, centroid_promedio = 1, estabilidad_tonal = 1,
       seg_mfcc = [], seg_chroma = [] \<rparr>"

text \<open>A concrete score record that names segment \<open>i\<close>.\<close>

definition cand_indice :: "nat \<Rightarrow> candidato" where
  "cand_indice i =
     \<lparr> indice = i, score_total = 1, score_repeticion = 0, energia_normalizada = 1,
       score_posicion = 1, repeticiones = 0, cand_inicio_s = 0, cand_fin_s = 0 \<rparr>"

text \<open>An \<open>n\<close> by \<open>n\<close> matrix.\<close>

definition cuadrada :: "nat \<Rightarrow> matriz \<Rightarrow> bool" where
  "cuadrada n m = (length m = n \<and> (\<forall>fila \<in> set m. length fila = n))"

text \<open>What one iteration of the inner loop writes to the cells \<open>(i, j)\<close> and \<open>(j, i)\<close>.\<close>

definition valor_par ::
  "(real list \<Rightarrow> real list \<Rightarrow> excepcion + real option) \<Rightarrow> segmento list \<Rightarrow> nat \<Rightarrow> nat \<Rightarrow> real" where
  "valor_par cc segmentos i j =
     (case similitud_par cc (segmentos ! i) (segmentos ! j) of Inr s \<Rightarrow> s | Inl e \<Rightarrow> 0)"

text \<open>The index pairs the two nested loops visit, in order.\<close>

definition pares :: "nat \<Rightarrow> (nat \<times> nat) list" where
  "pares n = concat (map (\<lambda>i. map (Pair i) [Suc i..<n]) [0..<n])"


text \<open>\<^verbatim>\<open>np.corrcoef(x, y)[0, 1]\<close> on exact reals, for the concrete examples: Pearson's
  coefficient; not-a-number when one of the two has no variance; a \<^verbatim>\<open>ValueError\<close>
  when the lengths differ.\<close>

definition pearson :: "real list \<Rightarrow> real list \<Rightarrow> excepcion + real option" where
  "pearson xs ys =
     (if length xs \<noteq> length ys
      then Inl (ValueError ''all the input array dimensions must match exactly'')
      else
        let sxy = sum_list (map2 (\<lambda>x y. (x - mean xs) * (y - mean ys)) xs ys);
            sxx = sum_list (map (\<lambda>x. (x - mean xs) ^ 2) xs);
            syy = sum_list (map (\<lambda>y. (y - mean ys) ^ 2) ys)
        in if sxx = 0 \<or> syy = 0 then Inr None
           else Inr (Some (sxy / (sqrt sxx * sqrt syy))))"

text \<open>A correlation that always raises, and concrete segments with given timbral and
  harmonic sub-matrices.\<close>

definition corr_falla :: "real list \<Rightarrow> real list \<Rightarrow> excepcion + real option" where
  "corr_falla xs ys = Inl (OtraExcepcion ''numeric error'')"

definition seg_matrices :: "matriz \<Rightarrow> matriz \<Rightarrow> segmento" where
  "seg_matrices m c =
     \<lparr> inicio_s = 0, fin_s = 1, inicio_frame = 0, fin_frame = 1, energia_promedio = 1,
       energia_varianza = 1, centroid_promedio = 1, estabilidad_tonal = 1,
       seg_mfcc = m, seg_chroma = c \<rparr>"

text \<open>The \<^verbatim>\<open>'exito'\<close> key of the returned dictionary.\<close>

fun exito :: "resultado \<Rightarrow> bool" where
  "exito (Exito r) = True"
| "exito (Fallo m) = False"

text \<open>Concrete inputs: a waveform of \<open>n\<close> samples, feature streams of \<open>n\<close> frames that
  rise by one per frame (13 timbral rows, 12 chroma rows), and an environment in which
  every file exists and holds \<open>n\<close> samples, the feature streams have
  \<open>1 + len(y) // hop_length\<close> frames (librosa frames a signal centred, its default),
  correlations are Pearson's and the export succeeds.\<close>

definition muestras :: "nat \<Rightarrow> real list" where
  "muestras n = map real [0..<n]"

definition pista_rampa :: "nat \<Rightarrow> caracteristicas" where
  "pista_rampa n =
     \<lparr> rms = map real [0..<n], mfcc = replicate 13 (map real [0..<n]),
       spectral_centroid = map real [0..<n], chroma = replicate 12 (map real [0..<n]),
       tempo = 120 \<rparr>"

definition entorno_centrado :: "nat \<Rightarrow> entorno" where
  "entorno_centrado n =
     \<lparr> existe = (\<lambda>ruta. True),
       librosa_load = (\<lambda>ruta. Inr (muestras n)),
       extraer = (\<lambda>y sr. Inr (pista_rampa (1 + length y div hop_length))),
       corrcoef = pearson,
       exportar = (\<lambda>ruta inicio fin salida. Inr ()) \<rparr>"

section \<open>The range driving the Segmenter\<close>

lemma techo_paso:
  fixes i fin paso :: nat
  assumes "0 < paso" "i < fin"
  shows "(fin - i + paso - 1) div paso = Suc ((fin - (i + paso) + paso - 1) div paso)"
proof (cases "i + paso \<le> fin")
  case True
  have "fin - i + paso - 1 = (fin - (i + paso) + paso - 1) + paso"
    using True assms by linarith
  then have "(fin - i + paso - 1) div paso = ((fin - (i + paso) + paso - 1) + paso) div paso"
    by (rule arg_cong)
  also have "\<dots> = Suc ((fin - (i + paso) + paso - 1) div paso)"
    using assms(1) by (simp only: div_add_self2)
  finally show ?thesis .
next
  case False
  have a: "fin - (i + paso) + paso - 1 = paso - 1" using False by linarith
  have b: "fin - i + paso - 1 = (fin - i - 1) + paso" using assms by linarith
  have c: "fin - i - 1 < paso" using False assms by linarith
  have "(fin - i + paso - 1) div paso = Suc ((fin - i - 1) div paso)"
    unfolding b using assms(1) by (simp only: div_add_self2)
  also have "\<dots> = Suc 0" using c by simp
  also have "\<dots> = Suc ((paso - 1) div paso)" using assms(1) by simp
  finally show ?thesis unfolding a .
qed

lemma rango_desde_map:
  "0 < paso \<Longrightarrow>
   rango_desde i fin paso = map (\<lambda>k. i + k * paso) [0..<(fin - i + paso - 1) div paso]"
proof (induction i fin paso rule: rango_desde.induct)
  case (1 i fin paso)
  show ?case
  proof (cases "fin \<le> i")
    case True
    then have "rango_desde i fin paso = []" by (subst rango_desde.simps) simp
    moreover have "(fin - i + paso - 1) div paso = 0" using True "1.prems" by simp
    ultimately show ?thesis by simp
  next
    case False
    then have lt: "i < fin" by simp
    let ?n = "(fin - (i + paso) + paso - 1) div paso"
    have ih: "rango_desde (i + paso) fin paso = map (\<lambda>k. i + paso + k * paso) [0..<?n]"
      using "1.IH" "1.prems" False by simp
    have "rango_desde i fin paso = i # rango_desde (i + paso) fin paso"
      using "1.prems" False by (subst rango_desde.simps) simp
    also have "\<dots> = i # map (\<lambda>k. i + k * paso) (map Suc [0..<?n])"
      unfolding ih by (simp add: add.assoc)
    also have "\<dots> = map (\<lambda>k. i + k * paso) (0 # map Suc [0..<?n])" by simp
    also have "0 # map Suc [0..<?n] = [0..<Suc ?n]"
      by (simp only: map_Suc_upt upt_conv_Cons [OF zero_less_Suc])
    finally show ?thesis unfolding techo_paso [OF "1.prems" lt] .
  qed
qed

lemma length_rango_desde:
  "0 < paso \<Longrightarrow> length (rango_desde 0 fin paso) = (fin + paso - 1) div paso"
  by (simp add: rango_desde_map)

lemma analizar_Inr:
  assumes "0 < hop_frames hop_s sr"
  shows "analizar_segmentos_completo c sr ventana_s hop_s =
     Inr (map (crear_segmento c sr (ventana_frames ventana_s sr))
            (rango_desde 0 (length (rms c) - ventana_frames ventana_s sr) (hop_frames hop_s sr)))"
proof -
  have "nat (int (length (rms c)) - int (ventana_frames ventana_s sr)) =
      length (rms c) - ventana_frames ventana_s sr"
    by simp
  then show ?thesis
    using assms by (simp add: analizar_segmentos_completo_def rango_def Let_def)
qed

lemma techo_no_multiplo:
  fixes d h :: nat
  assumes "0 < h" "\<not> h dvd d"
  shows "(d + h - 1) div h = d div h + 1"
proof -
  have r: "0 < d mod h" using assms by (simp add: dvd_eq_mod_eq_0)
  have "d + h - 1 = (d mod h - 1) + (d div h + 1) * h"
  proof -
    have "d = d mod h + d div h * h" by simp
    then have "d + h - 1 = d mod h + d div h * h + h - 1" by simp
    also have "\<dots> = (d mod h - 1) + (d div h * h + h)" using r by linarith
    finally show ?thesis by simp
  qed
  then have "(d + h - 1) div h = ((d mod h - 1) + (d div h + 1) * h) div h" by (rule arg_cong)
  also have "\<dots> = (d div h + 1) + (d mod h - 1) div h" using assms(1) by (intro div_mult_self1) simp
  also have "(d mod h - 1) div h = 0" using assms(1) by (simp add: less_imp_diff_less)
  finally show ?thesis by simp
qed

lemma techo_multiplo:
  fixes k h :: nat
  assumes "0 < h"
  shows "(k * h + h - 1) div h = k"
proof -
  have "k * h + h - 1 = (h - 1) + k * h" using assms by simp
  then have "(k * h + h - 1) div h = ((h - 1) + k * h) div h" by (rule arg_cong)
  also have "\<dots> = k + (h - 1) div h" using assms by (intro div_mult_self1) simp
  finally show ?thesis using assms by simp
qed

lemma marcos_22050: "ventana_frames 12 22050 = 516" "hop_frames 2 22050 = 86"
  by (simp_all add: ventana_frames_def hop_frames_def hop_length_def)

lemma rms_pista_silencio: "length (rms (pista_silencio n)) = n"
  by (simp add: pista_silencio_def)

lemma inicio_frame_crear: "inicio_frame (crear_segmento c sr vf i) = i"
  and fin_frame_crear: "fin_frame (crear_segmento c sr vf i) = i + vf"
  and inicio_s_crear: "inicio_s (crear_segmento c sr vf i) = frames_to_time i sr hop_length"
  and fin_s_crear: "fin_s (crear_segmento c sr vf i) = frames_to_time (i + vf) sr hop_length"
  by (simp_all add: crear_segmento_def Let_def)

lemma rango_desde_acotado:
  assumes "0 < paso" "i \<in> set (rango_desde 0 fin paso)"
  shows "i < fin"
proof -
  from assms obtain k where k: "k < (fin + paso - 1) div paso" and i: "i = k * paso"
    by (auto simp: rango_desde_map)
  from k have "Suc k \<le> (fin + paso - 1) div paso" by simp
  then have "Suc k * paso \<le> fin + paso - 1"
    using assms(1) by (simp only: less_eq_div_iff_mult_less_eq)
  then show ?thesis using i assms(1) by simp
qed

lemma analizar_cuenta_exacta:
  assumes "0 < hop_frames hop_s sr"
  shows "\<exists>segs. analizar_segmentos_completo c sr ventana_s hop_s = Inr segs \<and>
     length segs =
       (length (rms c) - ventana_frames ventana_s sr + hop_frames hop_s sr - 1)
         div hop_frames hop_s sr"
  using assms by (simp add: analizar_Inr length_rango_desde)

text \<open>
  C2 (amended). The claim gives floor((total_frames - window_frames) / stride_frames) + 1
  segments for every waveform. The loop is \<^verbatim>\<open>range(0, len(rms) - ventana_frames,
  hop_frames)\<close>, whose stop is exclusive. What holds, with a positive stride: a stream
  of at most window_frames frames gives no segment; a longer stream gives the claimed
  number when the stride does not divide total_frames - window_frames, and one fewer
  (exactly (total_frames - window_frames) / stride_frames) when it does. The start
  frames are 0, stride, 2 * stride, ..., all strictly below total_frames -
  window_frames; every segment spans window_frames frames, ends inside the stream and
  has a full window of window_frames energy frames, so no incomplete window is
  produced, and the complete window that ends exactly at the last frame is not
  produced either.
\<close>

theorem analizar_cuenta_segmentos:
  assumes hf: "0 < hop_frames hop_s sr"
  shows "\<exists>segs. analizar_segmentos_completo c sr ventana_s hop_s = Inr segs \<and>
     (length (rms c) \<le> ventana_frames ventana_s sr \<longrightarrow> segs = []) \<and>
     (ventana_frames ventana_s sr < length (rms c) \<longrightarrow>
        int (length segs) =
          (if hop_frames hop_s sr dvd (length (rms c) - ventana_frames ventana_s sr)
           then cuenta_segun_spec (length (rms c)) (ventana_frames ventana_s sr)
                  (hop_frames hop_s sr) - 1
           else cuenta_segun_spec (length (rms c)) (ventana_frames ventana_s sr)
                  (hop_frames hop_s sr))) \<and>
     map inicio_frame segs = map (\<lambda>k. k * hop_frames hop_s sr) [0..<length segs] \<and>
     (\<forall>s \<in> set segs. fin_frame s = inicio_frame s + ventana_frames ventana_s sr \<and>
        fin_frame s < length (rms c) \<and>
        length (rebanada (rms c) (inicio_frame s) (fin_frame s)) = ventana_frames ventana_s sr)"
proof -
  let ?vf = "ventana_frames ventana_s sr"
  let ?hf = "hop_frames hop_s sr"
  let ?d = "length (rms c) - ?vf"
  let ?is = "rango_desde 0 ?d ?hf"
  let ?segs = "map (crear_segmento c sr ?vf) ?is"
  have eq: "analizar_segmentos_completo c sr ventana_s hop_s = Inr ?segs"
    using hf by (rule analizar_Inr)
  have is_map: "?is = map (\<lambda>k. k * ?hf) [0..<(?d + ?hf - 1) div ?hf]"
    using hf by (simp add: rango_desde_map)
  have len: "length ?segs = (?d + ?hf - 1) div ?hf"
    using hf by (simp add: length_rango_desde)
  have corta: "length (rms c) \<le> ?vf \<longrightarrow> ?segs = []"
  proof
    assume "length (rms c) \<le> ?vf"
    then have "?d = 0" by simp
    then have "length ?segs = 0" using hf unfolding len by simp
    then show "?segs = []" by (simp only: length_0_conv)
  qed
  have cuenta: "?vf < length (rms c) \<longrightarrow>
      int (length ?segs) =
        (if ?hf dvd ?d then cuenta_segun_spec (length (rms c)) ?vf ?hf - 1
         else cuenta_segun_spec (length (rms c)) ?vf ?hf)"
  proof
    assume a: "?vf < length (rms c)"
    have d: "int ?d = int (length (rms c)) - int ?vf" using a by simp
    have spec: "cuenta_segun_spec (length (rms c)) ?vf ?hf = int (?d div ?hf) + 1"
      unfolding cuenta_segun_spec_def d [symmetric] by (simp add: zdiv_int)
    show "int (length ?segs) =
        (if ?hf dvd ?d then cuenta_segun_spec (length (rms c)) ?vf ?hf - 1
         else cuenta_segun_spec (length (rms c)) ?vf ?hf)"
    proof (cases "?hf dvd ?d")
      case True
      then obtain k where "?d = ?hf * k" by (rule dvdE)
      then have k: "?d = k * ?hf" by (simp only: mult.commute)
      have "length ?segs = (?d + ?hf - 1) div ?hf" by (rule len)
      also have "\<dots> = (k * ?hf + ?hf - 1) div ?hf" by (simp only: k)
      also have "\<dots> = k" using hf by (rule techo_multiplo)
      finally have "length ?segs = k" .
      moreover have "?d div ?hf = k" using hf by (simp add: k)
      ultimately show ?thesis using True spec by simp
    next
      case False
      from techo_no_multiplo [OF hf False] have "length ?segs = ?d div ?hf + 1"
        unfolding len .
      then show ?thesis using False spec by simp
    qed
  qed
  have inicios: "map inicio_frame ?segs = map (\<lambda>k. k * ?hf) [0..<length ?segs]"
  proof -
    have "map inicio_frame ?segs = ?is" by (simp add: inicio_frame_crear comp_def)
    then show ?thesis unfolding len using is_map by simp
  qed
  have completos: "\<forall>s \<in> set ?segs. fin_frame s = inicio_frame s + ?vf \<and>
      fin_frame s < length (rms c) \<and>
      length (rebanada (rms c) (inicio_frame s) (fin_frame s)) = ?vf"
  proof
    fix s assume "s \<in> set ?segs"
    then obtain i where i: "i \<in> set ?is" and s: "s = crear_segmento c sr ?vf i" by auto
    from rango_desde_acotado [OF hf i] have "i + ?vf < length (rms c)" by simp
    then show "fin_frame s = inicio_frame s + ?vf \<and> fin_frame s < length (rms c) \<and>
        length (rebanada (rms c) (inicio_frame s) (fin_frame s)) = ?vf"
      by (simp add: s inicio_frame_crear fin_frame_crear rebanada_def)
  qed
  from eq corta cuenta inicios completos show ?thesis by blast
qed

text \<open>The amended statement at 22050 Hz (window 516 frames, stride 86 frames): 700
  frames give the three windows starting at frames 0, 86 and 172, as the formula says;
  774 frames, whose excess 258 is three strides, give three windows as well, one fewer
  than the formula's 4; 516 frames, exactly one window, give none.\<close>

theorem analizar_cuenta_segmentos_witness:
  "0 < hop_frames 2 22050 \<and>
   ventana_frames 12 22050 < length (rms (pista_silencio 700)) \<and>
   \<not> hop_frames 2 22050 dvd (length (rms (pista_silencio 700)) - ventana_frames 12 22050) \<and>
   hop_frames 2 22050 dvd (length (rms (pista_silencio 774)) - ventana_frames 12 22050) \<and>
   length (rms (pista_silencio 516)) \<le> ventana_frames 12 22050 \<and>
   analizar_segmentos_completo (pista_silencio 516) 22050 12 2 = Inr [] \<and>
   (\<exists>segs. analizar_segmentos_completo (pista_silencio 700) 22050 12 2 = Inr segs \<and>
      length segs = 3 \<and> map inicio_frame segs = [0, 86, 172]) \<and>
   (\<exists>segs. analizar_segmentos_completo (pista_silencio 774) 22050 12 2 = Inr segs \<and>
      length segs = 3 \<and> map inicio_frame segs = [0, 86, 172] \<and>
      cuenta_segun_spec 774 516 86 = 4)"
proof -
  have h: "0 < hop_frames 2 22050" by (simp add: marcos_22050)
  have tres: "[0..<3] = [0, 1, 2::nat]" by (simp add: upt_rec)
  have dv: "(86::nat) dvd 258" "\<not> (86::nat) dvd 184" by simp_all
  from analizar_cuenta_segmentos [OF h, of "pista_silencio 516" 12]
  have corta: "analizar_segmentos_completo (pista_silencio 516) 22050 12 2 = Inr []"
    by (auto simp: marcos_22050 rms_pista_silencio)
  from analizar_cuenta_segmentos [OF h, of "pista_silencio 700" 12]
  obtain segs where s: "analizar_segmentos_completo (pista_silencio 700) 22050 12 2 = Inr segs"
    and n: "int (length segs) = cuenta_segun_spec 700 516 86"
    and m: "map inicio_frame segs = map (\<lambda>k. k * 86) [0..<length segs]"
    by (auto simp: marcos_22050 rms_pista_silencio dv)
  from n have n3: "length segs = 3" by (simp add: cuenta_segun_spec_def)
  from m n3 tres have m3: "map inicio_frame segs = [0, 86, 172]" by simp
  from analizar_cuenta_segmentos [OF h, of "pista_silencio 774" 12]
  obtain segs' where s': "analizar_segmentos_completo (pista_silencio 774) 22050 12 2 = Inr segs'"
    and n': "int (length segs') = cuenta_segun_spec 774 516 86 - 1"
    and m': "map inicio_frame segs' = map (\<lambda>k. k * 86) [0..<length segs']"
    by (auto simp: marcos_22050 rms_pista_silencio dv)
  have c4: "cuenta_segun_spec 774 516 86 = 4" by (simp add: cuenta_segun_spec_def)
  from n' c4 have n3': "length segs' = 3" by simp
  from m' n3' tres have m3': "map inicio_frame segs' = [0, 86, 172]" by simp
  from s n3 m3 s' n3' m3' c4 corta show ?thesis
    by (simp add: marcos_22050 rms_pista_silencio dv)
qed

text \<open>The claim as stated fails at 22050 Hz (window 516 frames, stride 86 frames): a
  stream of 602 frames, one stride longer than the window, gives the single segment
  that starts at frame 0, where the formula gives 2.\<close>

theorem analizar_cuenta_segmentos_counterexample:
  "analizar_segmentos_completo (pista_silencio 602) 22050 12 2 =
     Inr [crear_segmento (pista_silencio 602) 22050 516 0] \<and>
   int (length [crear_segmento (pista_silencio 602) 22050 516 0]) \<noteq>
     cuenta_segun_spec 602 (ventana_frames 12 22050) (hop_frames 2 22050)"
proof -
  have h: "0 < hop_frames 2 22050" by (simp add: marcos_22050)
  have a: "rango_desde 0 86 86 = [0]" by (simp add: rango_desde_map)
  show ?thesis
    by (simp add: analizar_Inr [OF h] marcos_22050 rms_pista_silencio a cuenta_segun_spec_def)
qed

section \<open>Segment Expander\<close>

lemma seg_tiempos_simps [simp]:
  "inicio_s (seg_tiempos a b) = a" "fin_s (seg_tiempos a b) = b"
  by (simp_all add: seg_tiempos_def)

lemma cand_indice_simps [simp]: "indice (cand_indice i) = i"
  by (simp add: cand_indice_def)

text \<open>The segment lists the Segmenter returns satisfy these invariants.\<close>

lemma frames_to_time_mono: "i \<le> j \<Longrightarrow> frames_to_time i sr hop \<le> frames_to_time j sr hop"
proof -
  assume "i \<le> j"
  then have "real (i * hop) \<le> real (j * hop)" by (simp add: mult_right_mono)
  then show ?thesis unfolding frames_to_time_def by (rule divide_right_mono) simp
qed

lemma analizar_segmentos_validos:
  assumes "analizar_segmentos_completo c sr ventana_s hop_s = Inr segs"
  shows "segmentos_validos segs"
proof -
  let ?vf = "ventana_frames ventana_s sr"
  let ?hf = "hop_frames hop_s sr"
  let ?is = "rango_desde 0 (length (rms c) - ?vf) ?hf"
  have hf: "0 < ?hf"
    using assms by (cases "?hf = 0") (simp_all add: analizar_segmentos_completo_def rango_def Let_def)
  from assms have segs: "segs = map (crear_segmento c sr ?vf) ?is"
    by (simp add: analizar_Inr [OF hf])
  obtain n where is_map: "?is = map (\<lambda>k. k * ?hf) [0..<n]"
    using hf by (simp add: rango_desde_map)
  show ?thesis
    unfolding segmentos_validos_def
  proof
    fix s assume "s \<in> set segs"
    then obtain i where i: "i \<in> set ?is" and s: "s = crear_segmento c sr ?vf i"
      unfolding segs by auto
    from i have ne: "?is \<noteq> []" by auto
    from i obtain k where k: "k < n" "i = k * ?hf" unfolding is_map by auto
    then have n: "0 < n" by simp
    have "last ?is = (n - 1) * ?hf"
      unfolding is_map using n by (simp add: last_map)
    moreover have "k \<le> n - 1" using k(1) by simp
    ultimately have le: "i \<le> last ?is" using k(2) by simp
    have "last segs = crear_segmento c sr ?vf (last ?is)"
      unfolding segs using ne by (simp add: last_map)
    then have "fin_s (last segs) = frames_to_time (last ?is + ?vf) sr hop_length"
      by (simp add: fin_s_crear)
    moreover have "fin_s s = frames_to_time (i + ?vf) sr hop_length"
      by (simp add: s fin_s_crear)
    moreover have "0 \<le> inicio_s s" by (simp add: s inicio_s_crear frames_to_time_def)
    ultimately show "0 \<le> inicio_s s \<and> fin_s s \<le> fin_s (last segs)"
      using le by (simp add: frames_to_time_mono)
  qed
qed

text \<open>
  C8. When the winning segment's raw duration (end time minus start time) is at least
  the target duration, \<^verbatim>\<open>expandir_segmento\<close> returns its bounds unchanged.
\<close>

theorem expandir_segmento_identidad:
  assumes "indice mejor < length segs"
    and "duracion_objetivo \<le> fin_s (segs ! indice mejor) - inicio_s (segs ! indice mejor)"
  shows "expandir_segmento mejor segs duracion_objetivo =
     Inr (inicio_s (segs ! indice mejor), fin_s (segs ! indice mejor))"
  using assms by (simp add: expandir_segmento_def Let_def)

text \<open>A 40 s segment with a 30 s target comes back as it is.\<close>

theorem expandir_segmento_identidad_witness:
  "expandir_segmento (cand_indice 0) [seg_tiempos 10 50, seg_tiempos 50 90] 30 = Inr (10, 50)"
  using expandir_segmento_identidad [of "cand_indice 0" "[seg_tiempos 10 50, seg_tiempos 50 90]" 30]
  by simp

text \<open>
  C9. For a non-empty segment list that satisfies the Segmenter's invariants and a
  winning segment of that list, \<^verbatim>\<open>expandir_segmento\<close> returns bounds with start
  \<open>\<ge> 0\<close> and end \<open>\<le>\<close> the track duration (the last segment's end). When the raw
  duration is short of the target it adds half the shortfall on each side (the start
  clamped at 0), and when the expanded end exceeds the track duration the end becomes
  the track duration and the start becomes end - target, clamped at 0; the returned
  duration is then at most the target.
\<close>

theorem expandir_segmento_limites:
  assumes "segs \<noteq> []" and "segmentos_validos segs" and "indice mejor < length segs"
  shows "\<exists>a b. expandir_segmento mejor segs objetivo = Inr (a, b) \<and> 0 \<le> a \<and>
     b \<le> fin_s (last segs) \<and>
     (fin_s (segs ! indice mejor) - inicio_s (segs ! indice mejor) < objetivo \<longrightarrow>
       (if fin_s (segs ! indice mejor) +
             (objetivo - (fin_s (segs ! indice mejor) - inicio_s (segs ! indice mejor))) / 2
           > fin_s (last segs)
        then a = max 0 (fin_s (last segs) - objetivo) \<and> b = fin_s (last segs) \<and>
             b - a \<le> objetivo
        else a = max 0 (inicio_s (segs ! indice mejor) -
                 (objetivo - (fin_s (segs ! indice mejor) - inicio_s (segs ! indice mejor))) / 2) \<and>
             b = fin_s (segs ! indice mejor) +
                 (objetivo - (fin_s (segs ! indice mejor) - inicio_s (segs ! indice mejor))) / 2))"
proof -
  let ?s = "segs ! indice mejor"
  have mem: "?s \<in> set segs" using assms(3) by simp
  then have ini: "0 \<le> inicio_s ?s" and fin: "fin_s ?s \<le> fin_s (last segs)"
    using assms(2) by (auto simp: segmentos_validos_def)
  show ?thesis
  proof (cases "objetivo \<le> fin_s ?s - inicio_s ?s")
    case True
    then have "expandir_segmento mejor segs objetivo = Inr (inicio_s ?s, fin_s ?s)"
      using assms(3) by (simp add: expandir_segmento_def Let_def)
    then show ?thesis using ini fin True by auto
  next
    case False
    let ?e = "(objetivo - (fin_s ?s - inicio_s ?s)) / 2"
    show ?thesis
    proof (cases "fin_s ?s + ?e > fin_s (last segs)")
      case True
      then have "expandir_segmento mejor segs objetivo =
          Inr (max 0 (fin_s (last segs) - objetivo), fin_s (last segs))"
        using assms(3) False by (simp add: expandir_segmento_def Let_def)
      moreover have "fin_s (last segs) - max 0 (fin_s (last segs) - objetivo) \<le> objetivo"
        using False ini fin by (simp add: max_def)
      ultimately show ?thesis using True by auto
    next
      case no: False
      then have "expandir_segmento mejor segs objetivo =
          Inr (max 0 (inicio_s ?s - ?e), fin_s ?s + ?e)"
        using assms(3) False by (simp add: expandir_segmento_def Let_def)
      then show ?thesis using no by auto
    qed
  qed
qed

text \<open>The specification's two scenarios on a 90 s track with a 30 s target: the window
  [40, 52) grows to [31, 61), and the window [82, 90) becomes [60, 90).\<close>

theorem expandir_segmento_limites_witness:
  "expandir_segmento (cand_indice 0) [seg_tiempos 40 52, seg_tiempos 78 90] 30 = Inr (31, 61) \<and>
   expandir_segmento (cand_indice 1) [seg_tiempos 40 52, seg_tiempos 82 90] 30 = Inr (60, 90)"
proof -
  have v1: "segmentos_validos [seg_tiempos 40 52, seg_tiempos 78 90]"
    and v2: "segmentos_validos [seg_tiempos 40 52, seg_tiempos 82 90]"
    by (simp_all add: segmentos_validos_def)
  from expandir_segmento_limites [OF _ v1, of "cand_indice 0" 30]
  have a: "expandir_segmento (cand_indice 0) [seg_tiempos 40 52, seg_tiempos 78 90] 30 = Inr (31, 61)"
    by auto
  from expandir_segmento_limites [OF _ v2, of "cand_indice 1" 30]
  have b: "expandir_segmento (cand_indice 1) [seg_tiempos 40 52, seg_tiempos 82 90] 30 = Inr (60, 90)"
    by auto
  from a b show ?thesis by simp
qed

text \<open>
  C10. When the winning segment starts at a time \<open>\<ge> 0\<close> that is less than half the
  shortfall, and the end plus half the shortfall does not exceed the track duration,
  \<^verbatim>\<open>expandir_segmento\<close> returns the window from 0 to the original end plus half the
  shortfall, which is strictly shorter than the target: nothing is added at the end
  for what the clamp at 0 cut off (the clamp at the track end, by contrast, moves the
  start to end - target).
\<close>

theorem expandir_segmento_inicio_recortado:
  assumes "indice mejor < length segs"
    and "0 \<le> inicio_s (segs ! indice mejor)"
    and "inicio_s (segs ! indice mejor) <
           (objetivo - (fin_s (segs ! indice mejor) - inicio_s (segs ! indice mejor))) / 2"
    and "fin_s (segs ! indice mejor) +
           (objetivo - (fin_s (segs ! indice mejor) - inicio_s (segs ! indice mejor))) / 2
         \<le> fin_s (last segs)"
  shows "expandir_segmento mejor segs objetivo =
       Inr (0, fin_s (segs ! indice mejor) +
              (objetivo - (fin_s (segs ! indice mejor) - inicio_s (segs ! indice mejor))) / 2) \<and>
     fin_s (segs ! indice mejor) +
       (objetivo - (fin_s (segs ! indice mejor) - inicio_s (segs ! indice mejor))) / 2 - 0
       < objetivo"
proof -
  let ?s = "segs ! indice mejor"
  let ?e = "(objetivo - (fin_s ?s - inicio_s ?s)) / 2"
  have corto: "\<not> objetivo \<le> fin_s ?s - inicio_s ?s" using assms(2,3) by simp
  have "expandir_segmento mejor segs objetivo = Inr (max 0 (inicio_s ?s - ?e), fin_s ?s + ?e)"
    using assms(1,4) corto by (simp add: expandir_segmento_def Let_def)
  moreover have "max 0 (inicio_s ?s - ?e) = 0" using assms(3) by (simp add: max_def)
  moreover have "fin_s ?s + ?e - 0 < objetivo" using assms(3) by (simp add: field_simps)
  ultimately show ?thesis by simp
qed

text \<open>The window [2, 14) of a 90 s track with a 30 s target: half the shortfall is 9 s,
  the start clamps at 0 and the result [0, 23) lasts 23 s.\<close>

theorem expandir_segmento_inicio_recortado_witness:
  "expandir_segmento (cand_indice 0) [seg_tiempos 2 14, seg_tiempos 78 90] 30 = Inr (0, 23) \<and>
   (23 :: real) - 0 < 30"
  using expandir_segmento_inicio_recortado [of "cand_indice 0" "[seg_tiempos 2 14, seg_tiempos 78 90]" 30]
  by simp

section \<open>Similarity Engine\<close>

lemma cuadrada_zeros: "cuadrada n (zeros n)"
  by (simp add: cuadrada_def zeros_def)

lemma zeros_nth: "a < n \<Longrightarrow> b < n \<Longrightarrow> zeros n ! a ! b = 0"
  by (simp add: zeros_def)

lemma cuadrada_poner:
  assumes "cuadrada n m"
  shows "cuadrada n (poner m i j v)"
proof (cases "i < length m")
  case True
  then have "length ((m ! i)[j := v]) = n" using assms by (simp add: cuadrada_def)
  moreover have "set (m[i := (m ! i)[j := v]]) \<subseteq> insert ((m ! i)[j := v]) (set m)"
    by (rule set_update_subset_insert)
  ultimately show ?thesis using assms unfolding cuadrada_def poner_def by auto
next
  case False
  then have "poner m i j v = m" by (simp add: poner_def not_less list_update_beyond)
  then show ?thesis using assms by simp
qed

lemma poner_nth:
  assumes "cuadrada n m" "i < n" "j < n" "a < n" "b < n"
  shows "poner m i j v ! a ! b = (if a = i \<and> b = j then v else m ! a ! b)"
proof -
  have "length m = n" "length (m ! i) = n"
    using assms by (auto simp: cuadrada_def)
  then show ?thesis
    using assms unfolding poner_def by (auto simp: nth_list_update)
qed

lemma paso_similitud_valor:
  "paso_similitud cc segs i j m =
     poner (poner m i j (valor_par cc segs i j)) j i (valor_par cc segs i j)"
  by (simp add: paso_similitud_def valor_par_def split: sum.splits)

lemma cuadrada_paso: "cuadrada n m \<Longrightarrow> cuadrada n (paso_similitud cc segs i j m)"
  by (simp add: paso_similitud_valor cuadrada_poner)

lemma paso_nth:
  assumes "cuadrada n m" "i < n" "j < n" "a < n" "b < n"
  shows "paso_similitud cc segs i j m ! a ! b =
     (if (a = i \<and> b = j) \<or> (a = j \<and> b = i) then valor_par cc segs i j else m ! a ! b)"
proof -
  let ?v = "valor_par cc segs i j"
  have c1: "cuadrada n (poner m i j ?v)" using assms(1) by (rule cuadrada_poner)
  have s1: "poner (poner m i j ?v) j i ?v ! a ! b =
      (if a = j \<and> b = i then ?v else poner m i j ?v ! a ! b)"
    by (rule poner_nth [OF c1 assms(3) assms(2) assms(4) assms(5)])
  have s2: "poner m i j ?v ! a ! b = (if a = i \<and> b = j then ?v else m ! a ! b)"
    by (rule poner_nth [OF assms])
  have s0: "paso_similitud cc segs i j m ! a ! b = poner (poner m i j ?v) j i ?v ! a ! b"
    by (subst paso_similitud_valor) (rule refl)
  show ?thesis
  proof (cases "a = j \<and> b = i")
    case True
    then show ?thesis using s0 s1 by presburger
  next
    case False
    then show ?thesis using s0 s1 s2 by presburger
  qed
qed

lemma fold_pasos:
  assumes "cuadrada n m" "\<forall>p \<in> set ps. fst p < snd p \<and> snd p < n"
  shows "cuadrada n (fold (\<lambda>p. paso_similitud cc segs (fst p) (snd p)) ps m) \<and>
     (\<forall>a<n. \<forall>b<n. fold (\<lambda>p. paso_similitud cc segs (fst p) (snd p)) ps m ! a ! b =
        (if (a, b) \<in> set ps then valor_par cc segs a b
         else if (b, a) \<in> set ps then valor_par cc segs b a
         else m ! a ! b))"
  using assms
proof (induction ps arbitrary: m)
  case Nil
  then show ?case by simp
next
  case (Cons p ps)
  obtain i j where p: "p = (i, j)" by (cases p)
  from Cons.prems have ij: "i < j" "j < n" and rest: "\<forall>q \<in> set ps. fst q < snd q \<and> snd q < n"
    by (auto simp: p)
  let ?m' = "paso_similitud cc segs i j m"
  have c': "cuadrada n ?m'" using Cons.prems(1) by (rule cuadrada_paso)
  note ih = Cons.IH [OF c' rest]
  have ih1: "cuadrada n (fold (\<lambda>p. paso_similitud cc segs (fst p) (snd p)) ps ?m')"
    using ih by (rule conjunct1)
  have ih2: "fold (\<lambda>p. paso_similitud cc segs (fst p) (snd p)) ps ?m' ! a ! b =
        (if (a, b) \<in> set ps then valor_par cc segs a b
         else if (b, a) \<in> set ps then valor_par cc segs b a
         else ?m' ! a ! b)" if "a < n" "b < n" for a b
    using ih [THEN conjunct2, rule_format, OF that] .
  have no_inv: "\<And>a b. (a, b) \<in> set ps \<Longrightarrow> a < b" using rest by auto
  show ?case
  proof (intro conjI allI impI)
    show "cuadrada n (fold (\<lambda>p. paso_similitud cc segs (fst p) (snd p)) (p # ps) m)"
      using ih1 by (simp add: p)
  next
    fix a b assume ab: "a < n" "b < n"
    have i_n: "i < n" using ij by simp
    have here: "?m' ! a ! b =
        (if (a = i \<and> b = j) \<or> (a = j \<and> b = i) then valor_par cc segs i j else m ! a ! b)"
      using paso_nth [OF Cons.prems(1) i_n ij(2) ab] .
    show "fold (\<lambda>p. paso_similitud cc segs (fst p) (snd p)) (p # ps) m ! a ! b =
        (if (a, b) \<in> set (p # ps) then valor_par cc segs a b
         else if (b, a) \<in> set (p # ps) then valor_par cc segs b a
         else m ! a ! b)"
    proof (cases "a = i \<and> b = j")
      case True
      then have a: "a = i" and b: "b = j" by simp_all
      have 1: "?m' ! i ! j = valor_par cc segs i j"
        using paso_nth [OF Cons.prems(1) i_n ij(2) i_n ij(2)] by simp
      have 2: "(j, i) \<notin> set ps" using no_inv [of j i] ij by auto
      have 3: "fold (\<lambda>p. paso_similitud cc segs (fst p) (snd p)) ps ?m' ! i ! j =
          valor_par cc segs i j"
        using ih2 [OF i_n ij(2)] 1 2 by simp
      show ?thesis unfolding a b using 3 by (simp add: p)
    next
      case nA: False
      show ?thesis
      proof (cases "a = j \<and> b = i")
        case True
        then have a: "a = j" and b: "b = i" by simp_all
        have 1: "?m' ! j ! i = valor_par cc segs i j"
          using paso_nth [OF Cons.prems(1) i_n ij(2) ij(2) i_n] by simp
        have 2: "(j, i) \<notin> set ps" using no_inv [of j i] ij by auto
        have 3: "fold (\<lambda>p. paso_similitud cc segs (fst p) (snd p)) ps ?m' ! j ! i =
            valor_par cc segs i j"
          using ih2 [OF ij(2) i_n] 1 2 by simp
        have 4: "j \<noteq> i" using ij by simp
        show ?thesis unfolding a b using 3 2 4 by (simp add: p)
      next
        case nB: False
        have 1: "?m' ! a ! b = m ! a ! b" using here nA nB by simp
        have m1: "(a, b) \<in> set (p # ps) \<longleftrightarrow> (a, b) \<in> set ps"
          using nA by (auto simp: p)
        have m2: "(b, a) \<in> set (p # ps) \<longleftrightarrow> (b, a) \<in> set ps"
          using nB by (auto simp: p)
        have f0: "fold (\<lambda>p. paso_similitud cc segs (fst p) (snd p)) (p # ps) m =
            fold (\<lambda>p. paso_similitud cc segs (fst p) (snd p)) ps ?m'"
          by (simp add: p)
        show ?thesis unfolding m1 m2 f0 ih2 [OF ab] 1 by (rule refl)
      qed
    qed
  qed
qed

lemma fold_concat_map: "fold f (concat (map g xs)) = fold (\<lambda>x. fold f (g x)) xs"
  by (induction xs) simp_all

lemma set_pares: "set (pares n) = {(i, j). i < j \<and> j < n}"
proof (intro set_eqI iffI)
  fix p assume "p \<in> set (pares n)"
  then show "p \<in> {(i, j). i < j \<and> j < n}" by (auto simp: pares_def)
next
  fix p :: "nat \<times> nat" assume "p \<in> {(i, j). i < j \<and> j < n}"
  then obtain i j where p: "p = (i, j)" and ij: "i < j" "j < n" by auto
  then have "i \<in> set [0..<n]" "(i, j) \<in> set (map (Pair i) [Suc i..<n])" by auto
  then show "p \<in> set (pares n)" unfolding pares_def p set_concat by (intro UN_I [of "map (Pair i) [Suc i..<n]"]) auto
qed

lemma calcular_similitudes_pares:
  "calcular_similitudes cc segs =
     fold (\<lambda>p. paso_similitud cc segs (fst p) (snd p)) (pares (length segs)) (zeros (length segs))"
  by (simp add: calcular_similitudes_def pares_def Let_def fold_concat_map fold_map comp_def)

lemma calcular_similitudes_cuadrada:
  "cuadrada (length segs) (calcular_similitudes cc segs)"
  using fold_pasos [OF cuadrada_zeros, of "pares (length segs)" "length segs" cc segs]
  by (simp add: calcular_similitudes_pares set_pares)

lemma calcular_similitudes_nth:
  assumes "a < length segs" "b < length segs"
  shows "calcular_similitudes cc segs ! a ! b =
     (if a < b then valor_par cc segs a b
      else if b < a then valor_par cc segs b a
      else 0)"
proof -
  have "\<forall>p \<in> set (pares (length segs)). fst p < snd p \<and> snd p < length segs"
    by (auto simp: set_pares)
  from fold_pasos [OF cuadrada_zeros this, of cc segs] assms
  show ?thesis
    by (simp add: calcular_similitudes_pares set_pares zeros_nth)
qed

lemma seg_matrices_simps [simp]:
  "seg_mfcc (seg_matrices m c) = m" "seg_chroma (seg_matrices m c) = c"
  by (simp_all add: seg_matrices_def)

lemma valor_par_falla: "valor_par corr_falla segs i j = 0"
  by (simp add: valor_par_def similitud_par_def correlacion_def corr_falla_def split: sum.splits)

text \<open>
  C7. The matrix returned by \<^verbatim>\<open>calcular_similitudes\<close> is square over the segments,
  symmetric (entry (i, j) equals entry (j, i) for all i and j, whatever the correlation
  function returns or raises) and zero on its diagonal.
\<close>

theorem calcular_similitudes_simetrica:
  "cuadrada (length segs) (calcular_similitudes cc segs) \<and>
   (\<forall>i<length segs. \<forall>j<length segs.
      calcular_similitudes cc segs ! i ! j = calcular_similitudes cc segs ! j ! i) \<and>
   (\<forall>i<length segs. calcular_similitudes cc segs ! i ! i = 0)"
proof (intro conjI allI impI)
  show "cuadrada (length segs) (calcular_similitudes cc segs)"
    by (rule calcular_similitudes_cuadrada)
next
  fix i j assume ij: "i < length segs" "j < length segs"
  consider "i < j" | "j < i" | "i = j" by linarith
  then show "calcular_similitudes cc segs ! i ! j = calcular_similitudes cc segs ! j ! i"
  proof cases
    case 1
    then show ?thesis
      by (simp add: calcular_similitudes_nth [OF ij] calcular_similitudes_nth [OF ij(2) ij(1)])
  next
    case 2
    then show ?thesis
      by (simp add: calcular_similitudes_nth [OF ij] calcular_similitudes_nth [OF ij(2) ij(1)])
  next
    case 3
    then show ?thesis by simp
  qed
next
  fix i assume "i < length segs"
  then show "calcular_similitudes cc segs ! i ! i = 0"
    by (simp add: calcular_similitudes_nth)
qed

text \<open>Two segments and a correlation that always raises: both off-diagonal entries are
  0 and equal, and the diagonal is 0.\<close>

theorem calcular_similitudes_simetrica_witness:
  "calcular_similitudes corr_falla [seg_matrices [[0, 2]] [[0, 2]], seg_matrices [[1, 5]] [[2, 3]]] ! 0 ! 1 =
   calcular_similitudes corr_falla [seg_matrices [[0, 2]] [[0, 2]], seg_matrices [[1, 5]] [[2, 3]]] ! 1 ! 0 \<and>
   calcular_similitudes corr_falla [seg_matrices [[0, 2]] [[0, 2]], seg_matrices [[1, 5]] [[2, 3]]] ! 0 ! 1 = 0 \<and>
   calcular_similitudes corr_falla [seg_matrices [[0, 2]] [[0, 2]], seg_matrices [[1, 5]] [[2, 3]]] ! 1 ! 1 = 0"
proof -
  let ?segs = "[seg_matrices [[0, 2]] [[0, 2]], seg_matrices [[1, 5]] [[2, 3]]]"
  have a: "calcular_similitudes corr_falla ?segs ! 0 ! 1 = calcular_similitudes corr_falla ?segs ! 1 ! 0"
    and d: "calcular_similitudes corr_falla ?segs ! 1 ! 1 = 0"
    using calcular_similitudes_simetrica [of ?segs corr_falla] by simp_all
  have "calcular_similitudes corr_falla ?segs ! 0 ! 1 = valor_par corr_falla ?segs 0 1"
    by (subst calcular_similitudes_nth) simp_all
  then have z: "calcular_similitudes corr_falla ?segs ! 0 ! 1 = 0"
    by (simp only: valor_par_falla)
  from a d z show ?thesis by simp
qed










section \<open>Chorus Scorer\<close>

lemma recorrer_Inr:
  assumes "\<forall>x \<in> set xs. f x = Inr (g x)"
  shows "recorrer f xs = Inr (map g xs)"
  using assms by (induction xs) simp_all

lemma puntuar_Inr:
  "i < length similitudes \<Longrightarrow> \<exists>c. puntuar segmentos similitudes i = Inr c"
  by (simp add: puntuar_def Let_def)

lemma calcular_score_coro_set:
  assumes "length similitudes = length segmentos"
  shows "\<exists>scores. calcular_score_coro segmentos similitudes = Inr scores \<and>
     length scores = length segmentos \<and>
     set scores = {c. \<exists>i<length segmentos. puntuar segmentos similitudes i = Inr c}"
proof -
  let ?g = "\<lambda>i. projr (puntuar segmentos similitudes i)"
  have "\<forall>i \<in> set [0..<length segmentos]. puntuar segmentos similitudes i = Inr (?g i)"
    using assms by (simp add: puntuar_def Let_def)
  then have r: "recorrer (puntuar segmentos similitudes) [0..<length segmentos] =
      Inr (map ?g [0..<length segmentos])"
    by (rule recorrer_Inr)
  have "set (map ?g [0..<length segmentos]) =
      {c. \<exists>i<length segmentos. puntuar segmentos similitudes i = Inr c}"
  proof (intro set_eqI iffI)
    fix c assume "c \<in> set (map ?g [0..<length segmentos])"
    then obtain i where i: "i < length segmentos" and c: "c = ?g i" by auto
    from puntuar_Inr [of i similitudes segmentos] i assms
    obtain c' where "puntuar segmentos similitudes i = Inr c'" by auto
    with c i show "c \<in> {c. \<exists>i<length segmentos. puntuar segmentos similitudes i = Inr c}"
      by auto
  next
    fix c assume "c \<in> {c. \<exists>i<length segmentos. puntuar segmentos similitudes i = Inr c}"
    then obtain i where i: "i < length segmentos" and c: "puntuar segmentos similitudes i = Inr c"
      by auto
    then have "c = ?g i" by simp
    with i show "c \<in> set (map ?g [0..<length segmentos])" by auto
  qed
  then show ?thesis by (simp add: calcular_score_coro_def r)
qed


lemma length_similitudes: "length (calcular_similitudes cc segs) = length segs"
  using calcular_similitudes_cuadrada [of segs cc] by (simp add: cuadrada_def)






section \<open>Entry point\<close>

lemma puntuar_indice:
  assumes "puntuar segs sims i = Inr c"
  shows "indice c = i"
proof (cases "length sims \<le> i")
  case True
  then show ?thesis using assms by (simp add: puntuar_def)
next
  case False
  then show ?thesis using assms unfolding puntuar_def Let_def
    by (auto simp only: if_False sum.inject candidato.select_convs)
qed

lemma calcular_score_coro_indices:
  assumes "length sims = length segs" and "calcular_score_coro segs sims = Inr scores"
  shows "length scores = length segs \<and> (\<forall>c \<in> set scores. indice c < length segs)"
proof -
  from calcular_score_coro_set [OF assms(1)] assms(2)
  have l: "length scores = length segs"
    and s: "set scores = {c. \<exists>i<length segs. puntuar segs sims i = Inr c}"
    by auto
  have "indice c < length segs" if "c \<in> set scores" for c
  proof -
    from that s obtain i where "i < length segs" and "puntuar segs sims i = Inr c" by auto
    then show ?thesis using puntuar_indice [of segs sims i c] by simp
  qed
  with l show ?thesis by simp
qed

lemma expandir_Inr:
  "indice m < length segs \<Longrightarrow> \<exists>a b. expandir_segmento m segs d = Inr (a, b)"
  by (simp add: expandir_segmento_def Let_def)

lemma analizar_22050:
  "\<exists>segs. analizar_segmentos_completo c 22050 12 2 = Inr segs \<and>
     (segs = [] \<longleftrightarrow> length (rms c) \<le> 516)"
proof -
  have h: "0 < hop_frames 2 22050" by (simp add: marcos_22050)
  from analizar_cuenta_exacta [OF h, of c 12]
  obtain segs where a: "analizar_segmentos_completo c 22050 12 2 = Inr segs"
    and l: "length segs = (length (rms c) - 516 + 86 - 1) div 86"
    by (auto simp: marcos_22050)
  have "(length segs = 0) = (length (rms c) \<le> 516)" unfolding l by (simp add: div_eq_0_iff)
  then show ?thesis using a by simp
qed

lemma proceso_vacio:
  assumes "existe env ruta" and "librosa_load env ruta = Inr y"
    and "extraer env y 22050 = Inr c"
    and "analizar_segmentos_completo c 22050 12 2 = Inr []"
  shows "proceso_principal env ruta salida dur = Inl (IndexError ''list index out of range'')"
  using assms
  by (simp add: proceso_principal_def cargar_audio_def calcular_similitudes_def zeros_def
      calcular_score_coro_def primero_def)

lemma proceso_no_vacio:
  assumes "existe env ruta" and "librosa_load env ruta = Inr y"
    and "extraer env y 22050 = Inr c"
    and "analizar_segmentos_completo c 22050 12 2 = Inr segs" and "segs \<noteq> []"
  shows "\<exists>scores a b.
     calcular_score_coro segs (calcular_similitudes (corrcoef env) segs) = Inr scores \<and>
     scores \<noteq> [] \<and> indice (hd scores) < length segs \<and>
     expandir_segmento (hd scores) segs dur = Inr (a, b) \<and>
     proceso_principal env ruta salida dur =
       (case exportar env ruta a b salida of
          Inl e \<Rightarrow> Inl e
        | Inr u \<Rightarrow> Inr \<lparr> res_inicio_s = a, res_fin_s = b, duracion_s = b - a,
                     score = score_total (hd scores),
                     res_repeticiones = repeticiones (hd scores),
                     archivo_salida = salida \<rparr>)"
proof -
  let ?M = "calcular_similitudes (corrcoef env) segs"
  have lM: "length ?M = length segs" by (rule length_similitudes)
  from calcular_score_coro_set [OF lM]
  obtain scores where sc: "calcular_score_coro segs ?M = Inr scores" by auto
  from calcular_score_coro_indices [OF lM sc]
  have l: "length scores = length segs" and ind: "\<forall>c \<in> set scores. indice c < length segs"
    by simp_all
  from l assms(5) have ne: "scores \<noteq> []" by auto
  then have hd: "hd scores \<in> set scores" by simp
  with ind have i: "indice (hd scores) < length segs" by simp
  from expandir_Inr [OF i, of dur]
  obtain a b where ex: "expandir_segmento (hd scores) segs dur = Inr (a, b)" by auto
  from ne have pr: "primero scores = Inr (hd scores)"
    by (cases scores) (simp_all add: primero_def)
  have "proceso_principal env ruta salida dur =
       (case exportar env ruta a b salida of
          Inl e \<Rightarrow> Inl e
        | Inr u \<Rightarrow> Inr \<lparr> res_inicio_s = a, res_fin_s = b, duracion_s = b - a,
                     score = score_total (hd scores),
                     res_repeticiones = repeticiones (hd scores),
                     archivo_salida = salida \<rparr>)"
    using assms(1-4) sc pr ex
    by (simp add: proceso_principal_def cargar_audio_def Let_def)
  with sc ne i ex show ?thesis by blast
qed




lemma rms_pista_rampa: "length (rms (pista_rampa n)) = n"
  by (simp add: pista_rampa_def)

lemma entorno_centrado_simps:
  "existe (entorno_centrado n) ruta"
  "librosa_load (entorno_centrado n) ruta = Inr (muestras n)"
  "extraer (entorno_centrado n) y sr = Inr (pista_rampa (1 + length y div hop_length))"
  "exportar (entorno_centrado n) ruta a b salida = Inr ()"
  "length (muestras n) = n"
  by (simp_all add: entorno_centrado_def muestras_def)

text \<open>
  C3 (amended). The claim measures the track in seconds; the loop measures it in frames.
  The window is 516 frames (12 s at 22050 Hz in hops of 512 samples, rounded down, about
  11.98 s). For every track that exists, loads and whose features are extracted: when the
  feature streams have at most 516 frames the Segmenter produces no segment and the
  entry point returns the failure record with the message of the index error raised by
  taking the first candidate; with centred framing (1 + samples div 512 frames) that is
  every track of fewer than 516 * 512 = 264192 samples, all of them shorter than 12 s.
  With more than 516 frames the Segmenter produces at least one segment.
\<close>

theorem pista_corta_falla:
  assumes "existe env ruta" and "librosa_load env ruta = Inr y"
    and "extraer env y 22050 = Inr c"
  shows "(length (rms c) \<le> ventana_frames 12 22050 \<longrightarrow>
        analizar_segmentos_completo c 22050 12 2 = Inr [] \<and>
        detectar_y_extraer_coro env ruta salida dur info = Fallo ''list index out of range'') \<and>
     (length (rms c) = 1 + length y div hop_length \<and>
      length y < ventana_frames 12 22050 * hop_length \<longrightarrow>
        real (length y) / 22050 < 12 \<and>
        analizar_segmentos_completo c 22050 12 2 = Inr [] \<and>
        detectar_y_extraer_coro env ruta salida dur info = Fallo ''list index out of range'') \<and>
     (ventana_frames 12 22050 < length (rms c) \<longrightarrow>
        (\<exists>segs. analizar_segmentos_completo c 22050 12 2 = Inr segs \<and> segs \<noteq> []))"
proof -
  from analizar_22050 [of c]
  obtain segs where a: "analizar_segmentos_completo c 22050 12 2 = Inr segs"
    and v: "segs = [] \<longleftrightarrow> length (rms c) \<le> 516"
    by auto
  have corta: "analizar_segmentos_completo c 22050 12 2 = Inr [] \<and>
      detectar_y_extraer_coro env ruta salida dur info = Fallo ''list index out of range''"
    if "length (rms c) \<le> 516"
  proof -
    from that v a have e: "analizar_segmentos_completo c 22050 12 2 = Inr []" by simp
    from proceso_vacio [where salida = salida and dur = dur, OF assms e]
    show ?thesis using e by (simp add: detectar_y_extraer_coro_def)
  qed
  have uno: "length (rms c) \<le> ventana_frames 12 22050 \<longrightarrow>
        analizar_segmentos_completo c 22050 12 2 = Inr [] \<and>
        detectar_y_extraer_coro env ruta salida dur info = Fallo ''list index out of range''"
    using corta by (simp add: marcos_22050)
  have dos: "length (rms c) = 1 + length y div hop_length \<and>
      length y < ventana_frames 12 22050 * hop_length \<longrightarrow>
        real (length y) / 22050 < 12 \<and>
        analizar_segmentos_completo c 22050 12 2 = Inr [] \<and>
        detectar_y_extraer_coro env ruta salida dur info = Fallo ''list index out of range''"
  proof (intro impI, elim conjE)
    assume f: "length (rms c) = 1 + length y div hop_length"
      and n: "length y < ventana_frames 12 22050 * hop_length"
    from n have n': "length y < 264192" by (simp add: marcos_22050 hop_length_def)
    then have "length y div 512 < 516" by (simp add: div_less_iff_less_mult)
    with f have "length (rms c) \<le> 516" by (simp add: hop_length_def)
    from corta [OF this] n'
    show "real (length y) / 22050 < 12 \<and>
        analizar_segmentos_completo c 22050 12 2 = Inr [] \<and>
        detectar_y_extraer_coro env ruta salida dur info = Fallo ''list index out of range''"
      by simp
  qed
  have tres: "ventana_frames 12 22050 < length (rms c) \<longrightarrow>
        (\<exists>segs. analizar_segmentos_completo c 22050 12 2 = Inr segs \<and> segs \<noteq> [])"
    using a v by (auto simp: marcos_22050)
  from uno dos tres show ?thesis by (intro conjI)
qed

text \<open>A track of 100000 samples (about 4.5 s): 196 frames, no segment, the failure record.\<close>

theorem pista_corta_falla_witness:
  "existe (entorno_centrado 100000) ''cancion.wav'' \<and>
   librosa_load (entorno_centrado 100000) ''cancion.wav'' = Inr (muestras 100000) \<and>
   extraer (entorno_centrado 100000) (muestras 100000) 22050 = Inr (pista_rampa 196) \<and>
   length (rms (pista_rampa 196)) \<le> ventana_frames 12 22050 \<and>
   length (rms (pista_rampa 196)) = 1 + length (muestras 100000) div hop_length \<and>
   length (muestras 100000) < ventana_frames 12 22050 * hop_length \<and>
   analizar_segmentos_completo (pista_rampa 196) 22050 12 2 = Inr [] \<and>
   detectar_y_extraer_coro (entorno_centrado 100000) ''cancion.wav'' ''coro.wav'' 30 False =
     Fallo ''list index out of range''"
proof -
  have e: "extraer (entorno_centrado 100000) (muestras 100000) 22050 = Inr (pista_rampa 196)"
    by (simp add: entorno_centrado_simps hop_length_def)
  from pista_corta_falla [of "entorno_centrado 100000" "''cancion.wav''" "muestras 100000"
      "pista_rampa 196" "''coro.wav''" 30 False, OF entorno_centrado_simps(1)
      entorno_centrado_simps(2) e]
  show ?thesis
    using e by (simp add: entorno_centrado_simps rms_pista_rampa marcos_22050 hop_length_def)
qed

text \<open>A track of 264192 samples lasts less than 12 s (about 11.98 s); centred framing
  gives 517 frames, the Segmenter produces the segment of frames 0 to 516 and the entry
  point succeeds.\<close>

theorem pista_corta_falla_counterexample:
  "real (length (muestras 264192)) / 22050 < 12 \<and>
   librosa_load (entorno_centrado 264192) ''cancion.wav'' = Inr (muestras 264192) \<and>
   extraer (entorno_centrado 264192) (muestras 264192) 22050 = Inr (pista_rampa 517) \<and>
   analizar_segmentos_completo (pista_rampa 517) 22050 12 2 =
     Inr [crear_segmento (pista_rampa 517) 22050 516 0] \<and>
   exito (detectar_y_extraer_coro (entorno_centrado 264192) ''cancion.wav'' ''coro.wav''
     30 False)"
proof -
  let ?env = "entorno_centrado 264192"
  have e: "extraer ?env (muestras 264192) 22050 = Inr (pista_rampa 517)"
    by (simp add: entorno_centrado_simps hop_length_def)
  have h: "0 < hop_frames 2 22050" by (simp add: marcos_22050)
  have r: "rango_desde 0 (Suc 0) 86 = [0]" by (simp add: rango_desde_map)
  have a: "analizar_segmentos_completo (pista_rampa 517) 22050 12 2 =
     Inr [crear_segmento (pista_rampa 517) 22050 516 0]"
    by (simp add: analizar_Inr [OF h] marcos_22050 rms_pista_rampa r)
  from proceso_no_vacio [where salida = "''coro.wav''" and dur = 30,
      OF entorno_centrado_simps(1) entorno_centrado_simps(2) e a]
  obtain r where "proceso_principal ?env ''cancion.wav'' ''coro.wav'' 30 = Inr r"
    by (auto simp: entorno_centrado_simps)
  then have "exito (detectar_y_extraer_coro ?env ''cancion.wav'' ''coro.wav'' 30 False)"
    by (simp add: detectar_y_extraer_coro_def)
  with e a show ?thesis by (simp add: entorno_centrado_simps)
qed



end
